theory Spec2Isabelle
  imports Complex_Main
begin

section \<open>The mesh ingester: values, exceptions and the Python runtime it calls\<close>

text \<open>
  This theory embeds \<^verbatim>\<open>mesh_ingester.py\<close>: the field validators, the row loop of
  \<^verbatim>\<open>ingest_and_validate_csv\<close>, the sink \<^verbatim>\<open>insert_data_to_db\<close> and \<^verbatim>\<open>main\<close>.

  The table that \<^verbatim>\<open>pd.read_csv\<close> returns is the input of the model. Its cells are
  the ones pandas yields for a column of dtype object: a Python \<^verbatim>\<open>str\<close>, or the float
  \<^verbatim>\<open>nan\<close> for a null token (the empty string, \<^verbatim>\<open>NaN\<close>, one blank). Columns that
  pandas infers as numeric or boolean, and a header that lacks one of the eight columns
  (a \<^verbatim>\<open>KeyError\<close>), are outside the model. An assignment \<^verbatim>\<open>df.at[i, c] = v\<close> stores
  \<open>v\<close> in the cell.

  Strings are lists of 8-bit characters, read as the code points U+0000 to U+00FF.
\<close>

datatype cell = NaN | Str string

text \<open>A Python float: the exact value of the literal it was parsed from, or a special.
  Rounding to 53 bits is not modelled (it never changes the sign of a value); rounding
  to zero and to infinity at the ends of the binary64 range is. Both zeros are \<open>Finite 0\<close>.\<close>

datatype pyfloat = Finite rat | PInf | NInf | FNaN

text \<open>What a cell of the data frame holds once validators have written to it. \<open>VNull\<close> is
  what the cell holds after \<^verbatim>\<open>None\<close> was assigned to it: \<^verbatim>\<open>None\<close> in a column of objects,
  \<^verbatim>\<open>nan\<close> in a column of floats.\<close>

datatype pyval = Raw cell | VFloat pyfloat | VBool bool | VNull | VInt int | VList "string list"

datatype exn = ValueError string | AttributeError string | IntegrityError string

text \<open>An element of a Python list literal that mixes strings and integers.\<close>

datatype lit = LStr string | LInt int

subsection \<open>Strings\<close>

definition is_space :: "char \<Rightarrow> bool" where
  \<comment> \<open>\<^verbatim>\<open>str.isspace\<close> on one character below U+0100\<close>
  "is_space c = (let n = (of_char c :: nat) in
     (9 \<le> n \<and> n \<le> 13) \<or> (28 \<le> n \<and> n \<le> 32) \<or> n = 133 \<or> n = 160)"

definition strip :: "string \<Rightarrow> string" where
  \<comment> \<open>\<^verbatim>\<open>str.strip()\<close>\<close>
  "strip s = rev (dropWhile is_space (rev (dropWhile is_space s)))"

definition is_number_space :: "char \<Rightarrow> bool" where
  \<comment> \<open>the white space that \<^verbatim>\<open>float\<close> and \<^verbatim>\<open>int\<close> drop at both ends of a str: the six of
      ASCII, and U+0085 and U+00A0, which they first turn into blanks; not U+001C to U+001F\<close>
  "is_number_space c = (let n = (of_char c :: nat) in
     (9 \<le> n \<and> n \<le> 13) \<or> n = 32 \<or> n = 133 \<or> n = 160)"

definition strip_number :: "string \<Rightarrow> string" where
  "strip_number s = rev (dropWhile is_number_space (rev (dropWhile is_number_space s)))"

definition lower_char :: "char \<Rightarrow> char" where
  "lower_char c = (let n = (of_char c :: nat) in
     if (65 \<le> n \<and> n \<le> 90) \<or> (192 \<le> n \<and> n \<le> 222 \<and> n \<noteq> 215) then char_of (n + 32) else c)"

definition lower :: "string \<Rightarrow> string" where
  \<comment> \<open>\<^verbatim>\<open>str.lower()\<close>\<close>
  "lower s = map lower_char s"

fun split_comma :: "string \<Rightarrow> string list" where
  \<comment> \<open>\<^verbatim>\<open>s.split(',')\<close>: never empty, \<^verbatim>\<open>''.split(',') == ['']\<close>\<close>
  "split_comma [] = [[]]"
| "split_comma (c # cs) =
     (if c = CHR '','' then [] # split_comma cs
      else (case split_comma cs of w # ws \<Rightarrow> (c # w) # ws | [] \<Rightarrow> [[c]]))"

fun join_comma :: "string list \<Rightarrow> string" where
  \<comment> \<open>\<^verbatim>\<open>','.join(xs)\<close>\<close>
  "join_comma [] = []"
| "join_comma [x] = x"
| "join_comma (x # y # ys) = x @ '','' @ join_comma (y # ys)"

definition is_digit :: "char \<Rightarrow> bool" where
  "is_digit c = (48 \<le> (of_char c :: nat) \<and> (of_char c :: nat) \<le> 57)"

definition digit_val :: "char \<Rightarrow> nat" where
  "digit_val c = of_char c - 48"

definition nat_of_digits :: "string \<Rightarrow> nat" where
  "nat_of_digits ds = foldl (\<lambda>a c. 10 * a + digit_val c) 0 ds"

definition digit_char :: "nat \<Rightarrow> char" where
  \<comment> \<open>only ever applied to a number below ten\<close>
  "digit_char d = ''0123456789'' ! d"

fun str_nat :: "nat \<Rightarrow> string" where
  \<comment> \<open>\<^verbatim>\<open>str(n)\<close> for a non-negative integer\<close>
  "str_nat n = (if n < 10 then [digit_char n] else str_nat (n div 10) @ [digit_char (n mod 10)])"

declare str_nat.simps [simp del]

subsection \<open>Numeric literals: \<^verbatim>\<open>int(s)\<close> and \<^verbatim>\<open>float(s)\<close>\<close>

text \<open>The grammar is the one of the language reference:
  \<^verbatim>\<open>digitpart ::= digit (["_"] digit)*\<close>,
  \<^verbatim>\<open>number ::= [digitpart] "." digitpart | digitpart ["."]\<close>,
  \<^verbatim>\<open>floatnumber ::= number [("e" | "E") ["+" | "-"] digitpart]\<close>,
  with an optional sign in front, \<^verbatim>\<open>inf\<close>, \<^verbatim>\<open>infinity\<close> and \<^verbatim>\<open>nan\<close> in any case,
  and white space stripped at both ends.\<close>

fun digitpart_tail :: "string \<Rightarrow> string \<times> string" where
  "digitpart_tail [] = ([], [])"
| "digitpart_tail [c] = (if is_digit c then ([c], []) else ([], [c]))"
| "digitpart_tail (c # d # cs) =
     (if is_digit c then (case digitpart_tail (d # cs) of (ds, r) \<Rightarrow> (c # ds, r))
      else if c = CHR ''_'' \<and> is_digit d then (case digitpart_tail cs of (ds, r) \<Rightarrow> (d # ds, r))
      else ([], c # d # cs))"

definition digitpart :: "string \<Rightarrow> (string \<times> string) option" where
  \<comment> \<open>the digits of the longest digitpart in front, and the rest\<close>
  "digitpart s = (case s of [] \<Rightarrow> None
     | c # cs \<Rightarrow> if is_digit c then (case digitpart_tail cs of (ds, r) \<Rightarrow> Some (c # ds, r)) else None)"

definition sign_prefix :: "string \<Rightarrow> bool \<times> string" where
  "sign_prefix s = (case s of [] \<Rightarrow> (False, [])
     | c # cs \<Rightarrow> if c = CHR ''-'' then (True, cs) else if c = CHR ''+'' then (False, cs) else (False, c # cs))"

definition max_str_digits :: nat where
  \<comment> \<open>the interpreter's default limit on the digits of an integer literal in a str\<close>
  "max_str_digits = 4300"

definition int_of_string :: "string \<Rightarrow> int option" where
  \<comment> \<open>\<^verbatim>\<open>int(s)\<close> for a str; \<open>None\<close> is the \<^verbatim>\<open>ValueError\<close>\<close>
  "int_of_string s = (case sign_prefix (strip_number s) of (neg, u) \<Rightarrow>
     (case digitpart u of
        Some (ds, []) \<Rightarrow>
          if max_str_digits < length ds then None
          else Some (if neg then - int (nat_of_digits ds) else int (nat_of_digits ds))
      | _ \<Rightarrow> None))"

definition number :: "string \<Rightarrow> (string \<times> nat \<times> string) option" where
  \<comment> \<open>all digits of the number, how many of them follow the point, and the rest\<close>
  "number u = (case digitpart u of
       Some (ds, r) \<Rightarrow>
         (case r of
            c # r' \<Rightarrow>
              if c = CHR ''.'' then
                (case digitpart r' of Some (fs, r'') \<Rightarrow> Some (ds @ fs, length fs, r'')
                 | None \<Rightarrow> Some (ds, 0, r'))
              else Some (ds, 0, r)
          | [] \<Rightarrow> Some (ds, 0, r))
     | None \<Rightarrow>
         (case u of
            c # r' \<Rightarrow>
              if c = CHR ''.'' then
                (case digitpart r' of Some (fs, r'') \<Rightarrow> Some (fs, length fs, r'') | None \<Rightarrow> None)
              else None
          | [] \<Rightarrow> None))"

definition exponent :: "string \<Rightarrow> int option" where
  "exponent r = (case r of [] \<Rightarrow> Some 0
     | c # r' \<Rightarrow>
         if c = CHR ''e'' \<or> c = CHR ''E'' then
           (case sign_prefix r' of (neg, r'') \<Rightarrow>
              (case digitpart r'' of
                 Some (es, []) \<Rightarrow> Some (if neg then - int (nat_of_digits es) else int (nat_of_digits es))
               | _ \<Rightarrow> None))
         else None)"

definition scale10 :: "rat \<Rightarrow> int \<Rightarrow> rat" where
  "scale10 m e = (if 0 \<le> e then m * 10 ^ nat e else m / 10 ^ nat (- e))"

definition to_double_range :: "rat \<Rightarrow> pyfloat" where
  \<comment> \<open>round to nearest at the two ends of binary64: the least subnormal is \<open>2^-1074\<close>, the
      largest double \<open>2^1024 - 2^971\<close>\<close>
  "to_double_range q =
     (if \<bar>q\<bar> * 2 ^ 1075 \<le> 1 then Finite 0
      else if 2 ^ 1024 - 2 ^ 970 \<le> \<bar>q\<bar> then (if q < 0 then NInf else PInf)
      else Finite q)"

definition float_of_string :: "string \<Rightarrow> pyfloat option" where
  \<comment> \<open>\<^verbatim>\<open>float(s)\<close> for a str; \<open>None\<close> is the \<^verbatim>\<open>ValueError\<close>\<close>
  "float_of_string s = (case sign_prefix (strip_number s) of (neg, u) \<Rightarrow>
     if lower u = ''inf'' \<or> lower u = ''infinity'' then Some (if neg then NInf else PInf)
     else if lower u = ''nan'' then Some FNaN
     else (case number u of None \<Rightarrow> None
       | Some (ds, k, r) \<Rightarrow>
           (case exponent r of None \<Rightarrow> None
            | Some e \<Rightarrow>
                let q = scale10 (of_nat (nat_of_digits ds)) (e - int k)
                in Some (to_double_range (if neg then - q else q)))))"

definition py_float :: "cell \<Rightarrow> pyfloat option" where
  \<comment> \<open>\<^verbatim>\<open>float(value)\<close>\<close>
  "py_float v = (case v of NaN \<Rightarrow> Some FNaN | Str s \<Rightarrow> float_of_string s)"

definition py_int :: "cell \<Rightarrow> int option" where
  \<comment> \<open>\<^verbatim>\<open>int(value)\<close>; \<^verbatim>\<open>int(float('nan'))\<close> is a \<^verbatim>\<open>ValueError\<close> too\<close>
  "py_int v = (case v of NaN \<Rightarrow> None | Str s \<Rightarrow> int_of_string s)"

definition lt_zero :: "pyfloat \<Rightarrow> bool" where
  \<comment> \<open>\<^verbatim>\<open>x < 0\<close> on floats: false for \<^verbatim>\<open>nan\<close>\<close>
  "lt_zero x = (case x of Finite q \<Rightarrow> q < 0 | NInf \<Rightarrow> True | PInf \<Rightarrow> False | FNaN \<Rightarrow> False)"

fun frac_digits :: "nat \<Rightarrow> rat \<Rightarrow> string" where
  \<comment> \<open>at most \<open>k\<close> decimals of a fraction in \<open>[0, 1)\<close>\<close>
  "frac_digits k f =
     (if k = 0 \<or> f = 0 then []
      else (let d = nat \<lfloor>f * 10\<rfloor> in digit_char d # frac_digits (k - 1) (f * 10 - of_nat d)))"

declare frac_digits.simps [simp del]

definition str_float :: "pyfloat \<Rightarrow> string" where
  \<comment> \<open>\<^verbatim>\<open>str(x)\<close> of a float, in positional notation with at most 17 decimals. The
      interpreter prints the shortest digits that round-trip and switches to exponent
      notation outside \<open>[1e-4, 1e16)\<close>; this text only ever reaches messages that the
      enclosing handler replaces.\<close>
  "str_float x = (case x of
       PInf \<Rightarrow> ''inf'' | NInf \<Rightarrow> ''-inf'' | FNaN \<Rightarrow> ''nan''
     | Finite q \<Rightarrow>
         (if q < 0 then ''-'' else '''') @ str_nat (nat \<lfloor>\<bar>q\<bar>\<rfloor>) @ ''.'' @
         (let ds = frac_digits 17 (\<bar>q\<bar> - of_int \<lfloor>\<bar>q\<bar>\<rfloor>) in if ds = [] then ''0'' else ds))"

definition py_str :: "cell \<Rightarrow> string" where
  \<comment> \<open>\<^verbatim>\<open>str(value)\<close>, also what an f-string inserts\<close>
  "py_str v = (case v of NaN \<Rightarrow> ''nan'' | Str s \<Rightarrow> s)"

definition isnull :: "cell \<Rightarrow> bool" where
  \<comment> \<open>\<^verbatim>\<open>pd.isnull\<close>, \<^verbatim>\<open>pd.isna\<close>\<close>
  "isnull v = (v = NaN)"

definition duplicated :: "'a list \<Rightarrow> bool list" where
  \<comment> \<open>\<^verbatim>\<open>Series.duplicated(keep=False)\<close>: every occurrence of a value that occurs twice
      or more; pandas takes two nulls for the same value\<close>
  "duplicated xs = map (\<lambda>x. 2 \<le> count_list xs x) xs"

section \<open>Field validators\<close>

text \<open>A validator returns \<open>Inr\<close> with its value, or \<open>Inl\<close> with the exception it raises.
  A \<^verbatim>\<open>try\<close> body is written as a value of the same kind and the \<^verbatim>\<open>except ValueError\<close>
  clause as a case distinction on it, so a \<^verbatim>\<open>ValueError\<close> raised inside the body meets
  the handler exactly as in the source.\<close>

definition no_split :: exn where
  \<comment> \<open>what \<^verbatim>\<open>.split\<close> raises on the float \<^verbatim>\<open>nan\<close>\<close>
  "no_split = AttributeError ([CHR 0x27] @ ''float'' @ [CHR 0x27] @ '' object has no attribute ''
     @ [CHR 0x27] @ ''split'' @ [CHR 0x27])"

definition convert_and_validate_colors :: "cell \<Rightarrow> string list \<Rightarrow> exn + string list" where
  "convert_and_validate_colors color_names_str possible_colors =
     (case color_names_str of
        NaN \<Rightarrow> Inl no_split
      | Str s \<Rightarrow>
          (let colors_list = split_comma s in
           if list_all (\<lambda>color. strip color \<in> set possible_colors) colors_list
           then Inr colors_list
           else Inl (ValueError (''Invalid color names in the list. Got '' @ s))))"

definition validate_trame :: "cell \<Rightarrow> string list \<Rightarrow> exn + unit" where
  "validate_trame v valid_values =
     (if v \<notin> Str ` set valid_values
      then Inl (ValueError (''Value '' @ py_str v @ '' for trame is not valid.''))
      else Inr ())"

definition mass_surf_body :: "cell \<Rightarrow> exn + pyfloat" where
  \<comment> \<open>lines 34 to 37, the body of the \<^verbatim>\<open>try\<close>; the message of \<^verbatim>\<open>float\<close> itself is cut
      short\<close>
  "mass_surf_body v =
     (case py_float v of
        None \<Rightarrow> Inl (ValueError ''could not convert string to float'')
      | Some mass_surf_value \<Rightarrow>
          if lt_zero mass_surf_value
          then Inl (ValueError (''mass_surf must be non-negative. Got '' @ str_float mass_surf_value))
          else Inr mass_surf_value)"

definition validate_mass_surf :: "cell \<Rightarrow> exn + pyfloat" where
  "validate_mass_surf v =
     (case mass_surf_body v of
        Inl (ValueError _) \<Rightarrow> Inl (ValueError (''mass_surf must be a float. Got '' @ py_str v))
      | Inl e \<Rightarrow> Inl e
      | Inr x \<Rightarrow> Inr x)"

definition true_values :: "lit list" where
  "true_values = [LStr ''vrai'', LStr ''true'', LInt 1, LStr ''1'']"

definition false_values :: "lit list" where
  "false_values = [LStr ''faux'', LStr ''false'', LInt 0, LStr ''0'']"

definition validate_bool :: "cell \<Rightarrow> exn + bool" where
  "validate_bool v =
     (if LStr (lower (py_str v)) \<in> set true_values then Inr True
      else if LStr (lower (py_str v)) \<in> set false_values then Inr False
      else Inl (ValueError (''Expected boolean value. Got '' @ py_str v)))"

definition positive_float_body :: "cell \<Rightarrow> string \<Rightarrow> exn + pyfloat" where
  \<comment> \<open>lines 53 to 56, the body of the \<^verbatim>\<open>try\<close>\<close>
  "positive_float_body v field_name =
     (case py_float v of
        None \<Rightarrow> Inl (ValueError ''could not convert string to float'')
      | Some float_value \<Rightarrow>
          if lt_zero float_value
          then Inl (ValueError (field_name @ '' must be non-negative. Got '' @ str_float float_value))
          else Inr float_value)"

definition validate_positive_float :: "cell \<Rightarrow> string \<Rightarrow> exn + pyfloat" where
  "validate_positive_float v field_name =
     (case positive_float_body v field_name of
        Inl (ValueError _) \<Rightarrow> Inl (ValueError (field_name @ '' must be a float. Got '' @ py_str v))
      | Inl e \<Rightarrow> Inl e
      | Inr x \<Rightarrow> Inr x)"

definition validate_optional_int :: "cell \<Rightarrow> exn + int option" where
  "validate_optional_int v =
     (if isnull v \<or> v = Str [] then Inr None
      else (case py_int v of
              Some n \<Rightarrow> Inr (Some n)
            | None \<Rightarrow> Inl (ValueError (''Expected integer value. Got '' @ py_str v))))"

section \<open>The row loop of \<^verbatim>\<open>ingest_and_validate_csv\<close>\<close>

datatype column =
  Codename | Trame | Mass_surf | Is_compat_interior_wall | Mesh_height | Mesh_width
  | Roll_pallet | Color_names

fun column_name :: "column \<Rightarrow> string" where
  "column_name Codename = ''codename''"
| "column_name Trame = ''trame''"
| "column_name Mass_surf = ''mass_surf''"
| "column_name Is_compat_interior_wall = ''is_compat_interior_wall''"
| "column_name Mesh_height = ''mesh_height''"
| "column_name Mesh_width = ''mesh_width''"
| "column_name Roll_pallet = ''roll_pallet''"
| "column_name Color_names = ''color_names''"

type_synonym row = "column \<Rightarrow> cell"
  \<comment> \<open>a row as \<^verbatim>\<open>iterrows\<close> yields it: the values read from the file\<close>

type_synonym dfrow = "column \<Rightarrow> pyval"
  \<comment> \<open>a row of the data frame, which the loop writes to with \<^verbatim>\<open>df.at\<close>\<close>

type_synonym rowstate = "dfrow \<times> string list"
  \<comment> \<open>row \<open>i\<close> of the data frame and \<^verbatim>\<open>row_errors\<close>\<close>

definition required_fields :: "column list" where
  "required_fields =
     [Codename, Trame, Mass_surf, Is_compat_interior_wall, Mesh_height, Mesh_width, Color_names]"

definition valid_trames :: "string list" where
  "valid_trames = [''T2 Ra1 M2 E2'', ''T2 Ra1 M4 E2'', ''T2 Ra1 M4 E3'']"

definition valid_colors :: "string list" where
  "valid_colors = [''white'', ''yellow'', ''green'', ''purple'', ''red'', ''blue'', ''orange'',
     ''magenta'', ''dark'', ''grey'', ''cyan'']"

definition empty_value_message :: "nat \<Rightarrow> column \<Rightarrow> string" where
  "empty_value_message i c =
     ''Empty value at line '' @ str_nat (i + 1) @ '' for '' @ [CHR 0x27] @ column_name c @ [CHR 0x27] @ ''.''"

definition duplicate_message :: "nat \<Rightarrow> string" where
  "duplicate_message i = ''Duplicate codename found at line '' @ str_nat (i + 1) @ ''.''"

definition error_message :: "nat \<Rightarrow> string \<Rightarrow> string" where
  "error_message i e = ''Error at line '' @ str_nat (i + 1) @ '': '' @ e"

fun except_ValueError :: "nat \<Rightarrow> exn \<Rightarrow> rowstate \<Rightarrow> exn + rowstate" where
  \<comment> \<open>the clause \<^verbatim>\<open>except ValueError as e: row_errors.append(...)\<close>; any other
      exception leaves the loop\<close>
  "except_ValueError i (ValueError e) (r, row_errors) = Inr (r, row_errors @ [error_message i e])"
| "except_ValueError i e (r, row_errors) = Inl e"

definition check_required :: "nat \<Rightarrow> row \<Rightarrow> string list \<Rightarrow> string list" where
  \<comment> \<open>lines 82 to 84\<close>
  "check_required i row row_errors =
     foldl (\<lambda>errs c. if isnull (row c) then errs @ [empty_value_message i c] else errs)
       row_errors required_fields"

definition check_duplicate :: "bool \<Rightarrow> nat \<Rightarrow> string list \<Rightarrow> string list" where
  \<comment> \<open>lines 86 and 87\<close>
  "check_duplicate dup i row_errors = (if dup then row_errors @ [duplicate_message i] else row_errors)"

definition try_trame :: "nat \<Rightarrow> row \<Rightarrow> rowstate \<Rightarrow> exn + rowstate" where
  "try_trame i row s =
     (case validate_trame (row Trame) valid_trames of
        Inl e \<Rightarrow> except_ValueError i e s
      | Inr _ \<Rightarrow> Inr s)"

definition try_mass_surf :: "nat \<Rightarrow> row \<Rightarrow> rowstate \<Rightarrow> exn + rowstate" where
  "try_mass_surf i row s =
     (case validate_mass_surf (row Mass_surf) of
        Inl e \<Rightarrow> except_ValueError i e s
      | Inr x \<Rightarrow> Inr ((fst s)(Mass_surf := VFloat x), snd s))"

definition try_bool :: "nat \<Rightarrow> row \<Rightarrow> rowstate \<Rightarrow> exn + rowstate" where
  "try_bool i row s =
     (case validate_bool (row Is_compat_interior_wall) of
        Inl e \<Rightarrow> except_ValueError i e s
      | Inr b \<Rightarrow> Inr ((fst s)(Is_compat_interior_wall := VBool b), snd s))"

definition try_mesh :: "nat \<Rightarrow> row \<Rightarrow> rowstate \<Rightarrow> exn + rowstate" where
  \<comment> \<open>lines 104 to 108: one \<^verbatim>\<open>try\<close> holds both assignments\<close>
  "try_mesh i row s =
     (case validate_positive_float (row Mesh_height) ''mesh_height'' of
        Inl e \<Rightarrow> except_ValueError i e s
      | Inr h \<Rightarrow>
          (let s' = ((fst s)(Mesh_height := VFloat h), snd s) in
           case validate_positive_float (row Mesh_width) ''mesh_width'' of
             Inl e \<Rightarrow> except_ValueError i e s'
           | Inr w \<Rightarrow> Inr ((fst s')(Mesh_width := VFloat w), snd s')))"

definition try_roll_pallet :: "nat \<Rightarrow> row \<Rightarrow> rowstate \<Rightarrow> exn + rowstate" where
  "try_roll_pallet i row s =
     (case validate_optional_int (row Roll_pallet) of
        Inl e \<Rightarrow> except_ValueError i e s
      | Inr None \<Rightarrow> Inr ((fst s)(Roll_pallet := VNull), snd s)
      | Inr (Some n) \<Rightarrow> Inr ((fst s)(Roll_pallet := VInt n), snd s))"

definition try_colors :: "nat \<Rightarrow> row \<Rightarrow> rowstate \<Rightarrow> exn + rowstate" where
  "try_colors i row s =
     (case convert_and_validate_colors (row Color_names) valid_colors of
        Inl e \<Rightarrow> except_ValueError i e s
      | Inr cs \<Rightarrow> Inr ((fst s)(Color_names := VList cs), snd s))"

definition and_then :: "exn + 'a \<Rightarrow> ('a \<Rightarrow> exn + 'b) \<Rightarrow> exn + 'b" where
  \<comment> \<open>statement sequencing: an exception that is not caught skips what follows\<close>
  "and_then m f = (case m of Inl e \<Rightarrow> Inl e | Inr x \<Rightarrow> f x)"

definition loop_body :: "bool \<Rightarrow> nat \<Rightarrow> row \<Rightarrow> dfrow \<Rightarrow> exn + rowstate" where
  \<comment> \<open>lines 80 to 118, for row \<open>i\<close> whose flag in \<^verbatim>\<open>duplicated_status\<close> is \<open>dup\<close>\<close>
  "loop_body dup i row r =
     and_then (try_trame i row (r, check_duplicate dup i (check_required i row [])))
       (\<lambda>s. and_then (try_mass_surf i row s)
         (\<lambda>s. and_then (try_bool i row s)
           (\<lambda>s. and_then (try_mesh i row s)
             (\<lambda>s. and_then (try_roll_pallet i row s)
               (\<lambda>s. try_colors i row s)))))"

type_synonym frame = "(dfrow \<times> bool) list"
  \<comment> \<open>the data frame: each row with its \<^verbatim>\<open>exclude\<close> flag\<close>

fun iterrows :: "bool list \<Rightarrow> nat \<Rightarrow> row list \<Rightarrow> frame \<times> string list \<Rightarrow> exn + frame \<times> string list" where
  \<comment> \<open>the \<^verbatim>\<open>for\<close> loop from index \<open>i\<close> on, over the rows still to come\<close>
  "iterrows duplicated_status i [] (df, error_messages) = Inr (df, error_messages)"
| "iterrows duplicated_status i (row # rows) (df, error_messages) =
     (case loop_body (duplicated_status ! i) i row (fst (df ! i)) of
        Inl e \<Rightarrow> Inl e
      | Inr (r, row_errors) \<Rightarrow>
          iterrows duplicated_status (i + 1) rows
            (if row_errors \<noteq> []
             then (df[i := (r, True)], error_messages @ row_errors)
             else (df[i := (r, snd (df ! i))], error_messages)))"

definition as_read :: "row \<Rightarrow> dfrow" where
  \<comment> \<open>a row of the data frame before the loop has written to it\<close>
  "as_read row = (\<lambda>c. Raw (row c))"

definition ingest_and_validate_csv :: "row list \<Rightarrow> exn + dfrow list \<times> string list" where
  \<comment> \<open>from line 72 on, applied to the table that \<^verbatim>\<open>read_csv\<close> returned\<close>
  "ingest_and_validate_csv rows =
     (let df = map (\<lambda>row. (as_read row, False)) rows;
          duplicated_status = duplicated (map (\<lambda>row. row Codename) rows)
      in case iterrows duplicated_status 0 rows (df, []) of
           Inl e \<Rightarrow> Inl e
         | Inr (df', error_messages) \<Rightarrow>
             Inr (map fst (filter (\<lambda>x. \<not> snd x) df'), error_messages))"

section \<open>The sink and \<^verbatim>\<open>main\<close>\<close>

text \<open>The database is the list of the records committed, the standard output the list of
  the lines printed. \<^verbatim>\<open>session.commit()\<close> belongs to the engine, not to this program, and
  is a parameter: given the records added to the session and the store, \<open>commit\<close> returns
  the new store, or the exception it raises, and then the store stays as it was.
  \<^verbatim>\<open>setup_database\<close>, which creates the table, is outside the model.\<close>

record mesh =
  codename :: pyval
  trame :: pyval
  mass_surf :: pyval
  is_compat_interior_wall :: pyval
  mesh_height :: pyval
  mesh_width :: pyval
  roll_pallet :: pyval
  color_names :: string

record world =
  db :: "mesh list"
  stdout :: "string list"

definition joined_colors :: "pyval \<Rightarrow> string" where
  \<comment> \<open>\<^verbatim>\<open>','.join(row['color_names'])\<close>; every row that reaches the sink holds a list there\<close>
  "joined_colors v = (case v of VList cs \<Rightarrow> join_comma cs | _ \<Rightarrow> [])"

definition to_mesh :: "dfrow \<Rightarrow> mesh" where
  "to_mesh r = \<lparr> codename = r Codename, trame = r Trame, mass_surf = r Mass_surf,
     is_compat_interior_wall = r Is_compat_interior_wall, mesh_height = r Mesh_height,
     mesh_width = r Mesh_width, roll_pallet = r Roll_pallet,
     color_names = joined_colors (r Color_names) \<rparr>"

type_synonym engine = "mesh list \<Rightarrow> mesh list \<Rightarrow> exn + mesh list"

definition insert_data_to_db :: "engine \<Rightarrow> dfrow list \<Rightarrow> mesh list \<Rightarrow> exn + mesh list" where
  \<comment> \<open>one \<^verbatim>\<open>session.add\<close> for each row, then the commit\<close>
  "insert_data_to_db commit df store =
     commit (foldl (\<lambda>session r. session @ [to_mesh r]) [] df) store"

definition main :: "engine \<Rightarrow> row list \<Rightarrow> world \<Rightarrow> exn + world" where
  "main commit rows w =
     (case ingest_and_validate_csv rows of
        Inl e \<Rightarrow> Inl e
      | Inr (df, error_messages) \<Rightarrow>
          if error_messages \<noteq> []
          then Inr (w\<lparr>stdout := stdout w @ [''Errors encountered:''] @ error_messages\<rparr>)
          else (case insert_data_to_db commit df (db w) of
                  Inl e \<Rightarrow> Inl e
                | Inr db' \<Rightarrow>
                    Inr (w\<lparr>db := db',
                          stdout := stdout w @ [''Data ingested and validated successfully.'']\<rparr>)))"


section \<open>Notions used in the proofs\<close>

text \<open>The state of a row before the first \<^verbatim>\<open>try\<close>: the row as read, and the messages of the
  presence check and of the duplicate check.\<close>

definition start_state :: "bool \<Rightarrow> nat \<Rightarrow> row \<Rightarrow> dfrow \<Rightarrow> rowstate" where
  "start_state dup i row r = (r, check_duplicate dup i (check_required i row []))"

text \<open>A later state extends an earlier one: the product code is untouched and messages
  were only appended.\<close>

definition extends :: "rowstate \<Rightarrow> rowstate \<Rightarrow> bool" where
  "extends s s' = (fst s' Codename = fst s Codename \<and> (\<exists>es. snd s' = snd s @ es))"

text \<open>The loop without the data frame: the state each row ends in, up to the first
  exception that is not caught.\<close>

fun row_results :: "bool list \<Rightarrow> nat \<Rightarrow> row list \<Rightarrow> exn + rowstate list" where
  "row_results ds i [] = Inr []"
| "row_results ds i (row # rows) =
     (case loop_body (ds ! i) i row (as_read row) of
        Inl e \<Rightarrow> Inl e
      | Inr s \<Rightarrow> (case row_results ds (i + 1) rows of Inl e \<Rightarrow> Inl e | Inr ss \<Rightarrow> Inr (s # ss)))"

text \<open>The outcome of the loop body for row \<open>k\<close> of a batch, whether the row is accepted,
  and the messages it adds to the report.\<close>

definition row_outcome :: "row list \<Rightarrow> nat \<Rightarrow> exn + rowstate" where
  "row_outcome rows k =
     loop_body (duplicated (map (\<lambda>row. row Codename) rows) ! k) k (rows ! k) (as_read (rows ! k))"

definition accepted :: "row list \<Rightarrow> nat \<Rightarrow> bool" where
  "accepted rows k = (case row_outcome rows k of Inr s \<Rightarrow> snd s = [] | Inl e \<Rightarrow> False)"

definition row_messages :: "row list \<Rightarrow> nat \<Rightarrow> string list" where
  "row_messages rows k = (case row_outcome rows k of Inr s \<Rightarrow> snd s | Inl e \<Rightarrow> [])"

definition batch_of :: "exn + dfrow list \<times> string list \<Rightarrow> dfrow list" where
  \<comment> \<open>the batch of a run that returned\<close>
  "batch_of x = (case x of Inr (df, errs) \<Rightarrow> df | Inl e \<Rightarrow> [])"


text \<open>Rows to run the model on: the accepted row of the specification's example, from
  which others are made by changing a cell.\<close>

definition mk_row :: "cell \<Rightarrow> cell \<Rightarrow> cell \<Rightarrow> cell \<Rightarrow> cell \<Rightarrow> cell \<Rightarrow> cell \<Rightarrow> cell \<Rightarrow> row" where
  "mk_row cn tr ms b h w rp cs = (\<lambda>c. case c of
       Codename \<Rightarrow> cn | Trame \<Rightarrow> tr | Mass_surf \<Rightarrow> ms | Is_compat_interior_wall \<Rightarrow> b
     | Mesh_height \<Rightarrow> h | Mesh_width \<Rightarrow> w | Roll_pallet \<Rightarrow> rp | Color_names \<Rightarrow> cs)"

definition example_row :: row where
  "example_row = mk_row (Str ''A1'') (Str ''T2 Ra1 M2 E2'') (Str ''12.5'') (Str ''vrai'')
     (Str ''2.0'') (Str ''1.0'') NaN (Str ''white,blue'')"



definition world0 :: world where
  "world0 = \<lparr> db = [], stdout = [] \<rparr>"

section \<open>How the loop runs\<close>

lemma foldl_append_if:
  "foldl (\<lambda>errs c. if P c then errs @ [f c] else errs) errs cs = errs @ map f (filter P cs)"
  by (induction cs arbitrary: errs) auto

lemma check_required_eq:
  "check_required i row errs =
     errs @ map (empty_value_message i) (filter (\<lambda>c. isnull (row c)) required_fields)"
  unfolding check_required_def by (rule foldl_append_if)

lemma validate_trame_exn: "validate_trame v vs = Inl e \<Longrightarrow> \<exists>m. e = ValueError m"
  by (auto simp: validate_trame_def split: if_splits)

lemma validate_mass_surf_exn:
  "validate_mass_surf v = Inl e \<Longrightarrow> e = ValueError (''mass_surf must be a float. Got '' @ py_str v)"
  by (auto simp: validate_mass_surf_def mass_surf_body_def split: sum.splits exn.splits option.splits if_splits)

lemma validate_bool_exn: "validate_bool v = Inl e \<Longrightarrow> \<exists>m. e = ValueError m"
  by (auto simp: validate_bool_def split: if_splits)

lemma validate_positive_float_exn:
  "validate_positive_float v f = Inl e \<Longrightarrow> e = ValueError (f @ '' must be a float. Got '' @ py_str v)"
  by (auto simp: validate_positive_float_def positive_float_body_def split: sum.splits exn.splits option.splits if_splits)

lemma validate_optional_int_exn: "validate_optional_int v = Inl e \<Longrightarrow> \<exists>m. e = ValueError m"
  by (auto simp: validate_optional_int_def split: if_splits option.splits)

lemma convert_and_validate_colors_exn:
  "convert_and_validate_colors v vs = Inl e \<Longrightarrow> v \<noteq> NaN \<Longrightarrow> \<exists>m. e = ValueError m"
  by (auto simp: convert_and_validate_colors_def Let_def split: cell.splits if_splits)

lemma extends_refl: "extends s s"
  by (simp add: extends_def)

lemma extends_trans: "extends s s' \<Longrightarrow> extends s' s'' \<Longrightarrow> extends s s''"
  by (auto simp: extends_def)

lemma except_ValueError_extends: "\<exists>s'. except_ValueError i (ValueError m) s = Inr s' \<and> extends s s'"
  by (cases s) (simp add: extends_def)

lemma try_block_extends:
  assumes "\<And>e. v = Inl e \<Longrightarrow> \<exists>m. e = ValueError m"
    and "\<And>x. v = Inr x \<Longrightarrow> extends s (k x)"
  shows "\<exists>s'. (case v of Inl e \<Rightarrow> except_ValueError i e s | Inr x \<Rightarrow> Inr (k x)) = Inr s' \<and> extends s s'"
proof (cases v)
  case (Inl e)
  then obtain m where "e = ValueError m" using assms(1) by blast
  with Inl show ?thesis using except_ValueError_extends [of i m s] by simp
next
  case (Inr x)
  then show ?thesis using assms(2) by simp
qed

lemma try_trame_extends: "\<exists>s'. try_trame i row s = Inr s' \<and> extends s s'"
  unfolding try_trame_def
  by (rule try_block_extends) (auto dest: validate_trame_exn simp: extends_refl)

lemma try_mass_surf_extends: "\<exists>s'. try_mass_surf i row s = Inr s' \<and> extends s s'"
  unfolding try_mass_surf_def
  by (rule try_block_extends) (auto dest: validate_mass_surf_exn simp: extends_def)

lemma try_bool_extends: "\<exists>s'. try_bool i row s = Inr s' \<and> extends s s'"
  unfolding try_bool_def
  by (rule try_block_extends) (auto dest: validate_bool_exn simp: extends_def)

lemma try_mesh_extends: "\<exists>s'. try_mesh i row s = Inr s' \<and> extends s s'"
proof (cases "validate_positive_float (row Mesh_height) ''mesh_height''")
  case (Inl e)
  then show ?thesis
    using except_ValueError_extends [of i _ s] validate_positive_float_exn [OF Inl]
    by (simp add: try_mesh_def)
next
  case h: (Inr h)
  let ?s = "((fst s)(Mesh_height := VFloat h), snd s)"
  have 1: "extends s ?s" by (simp add: extends_def)
  show ?thesis
  proof (cases "validate_positive_float (row Mesh_width) ''mesh_width''")
    case (Inl e)
    then show ?thesis
      using except_ValueError_extends [of i _ ?s] validate_positive_float_exn [OF Inl] h 1
      by (auto simp: try_mesh_def intro: extends_trans)
  next
    case (Inr w)
    then show ?thesis using h by (simp add: try_mesh_def extends_def)
  qed
qed

lemma try_roll_pallet_extends: "\<exists>s'. try_roll_pallet i row s = Inr s' \<and> extends s s'"
proof (cases "validate_optional_int (row Roll_pallet)")
  case (Inl e)
  then obtain m where "e = ValueError m" using validate_optional_int_exn by blast
  with Inl show ?thesis
    using except_ValueError_extends [of i m s] by (simp add: try_roll_pallet_def)
next
  case (Inr x)
  then show ?thesis
    by (cases x) (simp_all add: try_roll_pallet_def extends_def)
qed

lemma try_colors_extends:
  "row Color_names \<noteq> NaN \<Longrightarrow> \<exists>s'. try_colors i row s = Inr s' \<and> extends s s'"
  unfolding try_colors_def
  by (rule try_block_extends) (auto dest: convert_and_validate_colors_exn simp: extends_def)

lemma try_colors_NaN:
  "row Color_names = NaN \<Longrightarrow>
   try_colors i row s = Inl no_split"
  by (cases s) (simp add: try_colors_def convert_and_validate_colors_def no_split_def)

lemma loop_body_before_colors:
  obtains s where "extends (start_state dup i row r) s"
    and "loop_body dup i row r = try_colors i row s"
proof -
  let ?s0 = "start_state dup i row r"
  obtain s1 where 1: "try_trame i row ?s0 = Inr s1" "extends ?s0 s1"
    using try_trame_extends by blast
  obtain s2 where 2: "try_mass_surf i row s1 = Inr s2" "extends s1 s2"
    using try_mass_surf_extends by blast
  obtain s3 where 3: "try_bool i row s2 = Inr s3" "extends s2 s3"
    using try_bool_extends by blast
  obtain s4 where 4: "try_mesh i row s3 = Inr s4" "extends s3 s4"
    using try_mesh_extends by blast
  obtain s5 where 5: "try_roll_pallet i row s4 = Inr s5" "extends s4 s5"
    using try_roll_pallet_extends by blast
  have "extends ?s0 s5"
    using 1(2) 2(2) 3(2) 4(2) 5(2) by (blast intro: extends_trans)
  moreover have "loop_body dup i row r = try_colors i row s5"
    using 1(1) 2(1) 3(1) 4(1) 5(1) by (simp add: loop_body_def and_then_def start_state_def)
  ultimately show thesis using that by blast
qed

lemma loop_body_NaN:
  assumes "row Color_names = NaN"
  shows "loop_body dup i row r = Inl no_split"
proof -
  obtain s where "loop_body dup i row r = try_colors i row s"
    using loop_body_before_colors by blast
  then show ?thesis using assms try_colors_NaN [of row i s] by simp
qed

lemma loop_body_returns:
  assumes "row Color_names \<noteq> NaN"
  shows "\<exists>s'. loop_body dup i row r = Inr s' \<and> extends (start_state dup i row r) s'"
proof -
  obtain s where s: "extends (start_state dup i row r) s" "loop_body dup i row r = try_colors i row s"
    using loop_body_before_colors by blast
  obtain s' where "try_colors i row s = Inr s'" "extends s s'"
    using assms try_colors_extends [of row i s] by blast
  then show ?thesis using s by (auto intro: extends_trans)
qed

lemma loop_body_Inr_iff:
  "(\<exists>s'. loop_body dup i row r = Inr s') \<longleftrightarrow> row Color_names \<noteq> NaN"
  using loop_body_NaN [of row dup i r] loop_body_returns [of row dup i r] by auto

lemma loop_body_InrD:
  assumes "loop_body dup i row r = Inr s'"
  shows "row Color_names \<noteq> NaN" and "extends (start_state dup i row r) s'"
proof -
  show 1: "row Color_names \<noteq> NaN" using assms loop_body_Inr_iff by blast
  show "extends (start_state dup i row r) s'"
    using 1 loop_body_returns [of row dup i r] assms by auto
qed

lemma row_results_Inr_iff:
  "(\<exists>ss. row_results ds i rows = Inr ss) \<longleftrightarrow> (\<forall>row \<in> set rows. row Color_names \<noteq> NaN)"
proof (induction rows arbitrary: i)
  case Nil
  then show ?case by simp
next
  case (Cons row rows)
  show ?case
  proof (cases "row Color_names = NaN")
    case True
    then show ?thesis by (simp add: loop_body_NaN)
  next
    case False
    then obtain s where "loop_body (ds ! i) i row (as_read row) = Inr s"
      using loop_body_returns by blast
    then show ?thesis using False Cons.IH [of "i + 1"]
      by (auto split: sum.splits)
  qed
qed

lemma row_results_length: "row_results ds i rows = Inr ss \<Longrightarrow> length ss = length rows"
  by (induction rows arbitrary: i ss) (auto split: sum.splits)

lemma row_results_nth:
  "row_results ds i rows = Inr ss \<Longrightarrow> k < length rows \<Longrightarrow>
   loop_body (ds ! (i + k)) (i + k) (rows ! k) (as_read (rows ! k)) = Inr (ss ! k)"
proof (induction rows arbitrary: i ss k)
  case Nil
  then show ?case by simp
next
  case (Cons row rows)
  from Cons.prems(1) obtain s ss' where s: "loop_body (ds ! i) i row (as_read row) = Inr s"
    and ss': "row_results ds (i + 1) rows = Inr ss'" and ss: "ss = s # ss'"
    by (auto split: sum.splits)
  show ?case
  proof (cases k)
    case 0
    then show ?thesis using s ss by simp
  next
    case (Suc k')
    then have "k' < length rows" using Cons.prems(2) by simp
    from Cons.IH [OF ss' this] show ?thesis using Suc ss by simp
  qed
qed

lemma iterrows_row_results:
  assumes "i + length rows \<le> length df"
    and "\<forall>k < length rows. df ! (i + k) = (as_read (rows ! k), False)"
  shows "iterrows ds i rows (df, msgs) =
     (case row_results ds i rows of
        Inl e \<Rightarrow> Inl e
      | Inr ss \<Rightarrow> Inr (take i df @ map (\<lambda>s. (fst s, snd s \<noteq> [])) ss @ drop (i + length rows) df,
                      msgs @ concat (map snd ss)))"
  using assms
proof (induction rows arbitrary: i df msgs)
  case Nil
  then show ?case by simp
next
  case (Cons row rows)
  have i: "i < length df" using Cons.prems(1) by simp
  have dfi: "df ! i = (as_read row, False)" using Cons.prems(2) by force
  show ?case
  proof (cases "loop_body (ds ! i) i row (as_read row)")
    case (Inl e)
    then show ?thesis using dfi by simp
  next
    case (Inr s)
    obtain r es where s: "s = (r, es)" by (cases s)
    let ?df = "df[i := (r, es \<noteq> [])]"
    let ?msgs = "if es \<noteq> [] then msgs @ es else msgs"
    have step: "iterrows ds i (row # rows) (df, msgs) = iterrows ds (i + 1) rows (?df, ?msgs)"
      using Inr s dfi by auto
    have 1: "(i + 1) + length rows \<le> length ?df" using Cons.prems(1) by simp
    have 2: "\<forall>k < length rows. ?df ! ((i + 1) + k) = (as_read (rows ! k), False)"
    proof (intro allI impI)
      fix k assume k: "k < length rows"
      have "?df ! ((i + 1) + k) = df ! (i + Suc k)" by simp
      also have "\<dots> = (as_read ((row # rows) ! Suc k), False)"
        using Cons.prems(2) k by (metis Suc_less_eq length_Cons)
      finally show "?df ! ((i + 1) + k) = (as_read (rows ! k), False)" by simp
    qed
    have 3: "take (i + 1) ?df = take i df @ [(r, es \<noteq> [])]"
      using i by (simp add: take_Suc_conv_app_nth)
    have 4: "drop (i + 1 + length rows) ?df = drop (i + length (row # rows)) df"
      by simp
    have 5: "msgs @ concat (map snd (s # ss)) = ?msgs @ concat (map snd ss)" for ss
      using s by simp
    show ?thesis
      unfolding step Cons.IH [OF 1 2] 3 4
      using Inr s by (auto split: sum.splits)
  qed
qed

lemma ingest_row_results:
  "ingest_and_validate_csv rows =
     (case row_results (duplicated (map (\<lambda>row. row Codename) rows)) 0 rows of
        Inl e \<Rightarrow> Inl e
      | Inr ss \<Rightarrow> Inr (map fst (filter (\<lambda>s. snd s = []) ss), concat (map snd ss)))"
proof -
  let ?df = "map (\<lambda>row. (as_read row, False)) rows"
  have 1: "0 + length rows \<le> length ?df" by simp
  have 2: "\<forall>k < length rows. ?df ! (0 + k) = (as_read (rows ! k), False)" by simp
  have 3: "map fst (filter (\<lambda>x. \<not> snd x) (map (\<lambda>s. (fst s, snd s \<noteq> [])) ss))
      = map fst (filter (\<lambda>s. snd s = []) ss)" for ss :: "rowstate list"
    by (induction ss) auto
  show ?thesis
    unfolding ingest_and_validate_csv_def Let_def iterrows_row_results [OF 1 2]
    by (auto split: sum.splits simp: 3 dest: row_results_length)
qed

lemma ingest_returns_iff:
  "(\<exists>out errs. ingest_and_validate_csv rows = Inr (out, errs))
     \<longleftrightarrow> (\<forall>row \<in> set rows. row Color_names \<noteq> NaN)"
proof -
  have "(\<exists>out errs. ingest_and_validate_csv rows = Inr (out, errs))
     \<longleftrightarrow> (\<exists>ss. row_results (duplicated (map (\<lambda>row. row Codename) rows)) 0 rows = Inr ss)"
    by (auto simp: ingest_row_results split: sum.splits)
  then show ?thesis by (simp only: row_results_Inr_iff)
qed

section \<open>The batch that is returned\<close>

lemma ingest_InrD:
  assumes "ingest_and_validate_csv rows = Inr (out, errs)"
  shows "\<exists>ss. length ss = length rows
    \<and> (\<forall>k. k < length rows \<longrightarrow> row_outcome rows k = Inr (ss ! k))
    \<and> out = map fst (filter (\<lambda>s. snd s = []) ss)
    \<and> errs = concat (map snd ss)"
proof -
  let ?ds = "duplicated (map (\<lambda>row. row Codename) rows)"
  from assms obtain ss where ss: "row_results ?ds 0 rows = Inr ss"
    and out: "out = map fst (filter (\<lambda>s. snd s = []) ss)" and errs: "errs = concat (map snd ss)"
    by (auto simp: ingest_row_results split: sum.splits)
  have "length ss = length rows" using ss by (rule row_results_length)
  moreover have "row_outcome rows k = Inr (ss ! k)" if "k < length rows" for k
    using row_results_nth [OF ss that] by (simp add: row_outcome_def)
  ultimately show ?thesis using out errs by blast
qed

lemma duplicated_nth:
  "k < length xs \<Longrightarrow> duplicated xs ! k = (2 \<le> count_list xs (xs ! k))"
  by (simp add: duplicated_def)

lemma count_list_two_aux:
  assumes "i < j" "j < length xs" "xs ! i = xs ! j"
  shows "2 \<le> count_list xs (xs ! i)"
proof -
  have xs: "xs = take j xs @ xs ! j # drop (Suc j) xs"
    using assms(2) by (rule id_take_nth_drop)
  have "xs ! i \<in> set (take j xs)"
    using assms(1,2) by (metis in_set_conv_nth length_take less_trans min.absorb2 nth_take order_less_imp_le)
  then have "1 \<le> count_list (take j xs) (xs ! i)"
    by (metis count_list_0_iff less_one not_le)
  moreover have "count_list xs (xs ! i)
      = count_list (take j xs) (xs ! i) + count_list (xs ! j # drop (Suc j) xs) (xs ! i)"
    by (subst xs) (simp only: count_list_append)
  moreover have "1 \<le> count_list (xs ! j # drop (Suc j) xs) (xs ! i)"
    using assms(3) by simp
  ultimately show ?thesis by linarith
qed

lemma count_list_two:
  assumes "i < length xs" "j < length xs" "i \<noteq> j" "xs ! i = xs ! j"
  shows "2 \<le> count_list xs (xs ! i)"
proof (cases "i < j")
  case True
  then show ?thesis using assms count_list_two_aux by blast
next
  case False
  then have "j < i" using assms(3) by simp
  from count_list_two_aux [OF this assms(1)] assms(4) show ?thesis by simp
qed

lemma duplicated_codename:
  assumes "i < length rows" "j < length rows" "i \<noteq> j" "(rows ! i) Codename = (rows ! j) Codename"
  shows "duplicated (map (\<lambda>row. row Codename) rows) ! i"
proof -
  let ?xs = "map (\<lambda>row. row Codename) rows"
  have "2 \<le> count_list ?xs (?xs ! i)"
    by (rule count_list_two [of i ?xs j]) (use assms in simp_all)
  then show ?thesis using assms(1) by (simp add: duplicated_nth)
qed

lemma row_outcome_InrD:
  assumes "row_outcome rows k = Inr s"
  shows "fst s Codename = Raw ((rows ! k) Codename)"
    and "\<exists>es. snd s = check_duplicate (duplicated (map (\<lambda>row. row Codename) rows) ! k) k
            (check_required k (rows ! k) []) @ es"
  using loop_body_InrD(2) [OF assms [unfolded row_outcome_def]]
  by (simp_all add: extends_def start_state_def as_read_def)

lemma duplicate_row_message:
  assumes "row_outcome rows k = Inr s" "duplicated (map (\<lambda>row. row Codename) rows) ! k"
  shows "duplicate_message k \<in> set (snd s)"
  using row_outcome_InrD(2) [OF assms(1)] assms(2) by (auto simp: check_duplicate_def)

lemma missing_field_row_message:
  assumes "row_outcome rows k = Inr s" "c \<in> set required_fields" "(rows ! k) c = NaN"
  shows "empty_value_message k c \<in> set (snd s)"
  using row_outcome_InrD(2) [OF assms(1)] assms(2,3)
  by (auto simp: check_duplicate_def check_required_eq isnull_def)

lemma in_report:
  assumes "errs = concat (map snd ss)" "k < length ss" "m \<in> set (snd (ss ! k))"
  shows "m \<in> set errs"
  using assms by (auto intro!: bexI [of _ "ss ! k"])

lemma in_batch:
  assumes "out = map fst (filter (\<lambda>s. snd s = []) ss)" "r \<in> set out"
  obtains k where "k < length ss" "snd (ss ! k) = []" "r = fst (ss ! k)"
  using assms by (auto simp: in_set_conv_nth)

lemma filter_as_indices:
  "filter P xs = map ((!) xs) (filter (\<lambda>k. P (xs ! k)) [0..<length xs])"
proof -
  have "filter P (map ((!) xs) [0..<length xs])
      = map ((!) xs) (filter (P \<circ> (!) xs) [0..<length xs])"
    by (rule filter_map)
  then show ?thesis by (simp add: map_nth comp_def)
qed

lemma count_list_ge1: "x \<in> set xs \<Longrightarrow> 1 \<le> count_list xs x"
  by (metis count_list_0_iff less_one not_le)



lemma join_split_comma: "join_comma (split_comma s) = s"
proof (induction s)
  case Nil
  then show ?case by simp
next
  case (Cons c s)
  obtain w ws where ws: "split_comma s = w # ws" by (cases "split_comma s") (cases s; simp split: if_splits list.splits)+
  show ?case using Cons ws by (cases ws) (auto)
qed

lemma take_as_indices: "i \<le> length xs \<Longrightarrow> take i xs = map ((!) xs) [0..<i]"
proof -
  assume i: "i \<le> length xs"
  have "take i (map ((!) xs) [0..<length xs]) = map ((!) xs) (take i [0..<length xs])"
    by (rule take_map)
  then show ?thesis using i by (simp add: map_nth)
qed

lemma filter_nth_position:
  assumes "i < length xs" "P (xs ! i)"
  shows "length (filter P (take i xs)) < length (filter P xs)"
    and "filter P xs ! length (filter P (take i xs)) = xs ! i"
proof -
  have "filter P xs = filter P (take i xs @ xs ! i # drop (Suc i) xs)"
    using assms(1) by (simp only: id_take_nth_drop [symmetric])
  then have eq: "filter P xs = filter P (take i xs) @ xs ! i # filter P (drop (Suc i) xs)"
    using assms(2) by simp
  have "length (filter P xs) = length (filter P (take i xs) @ xs ! i # filter P (drop (Suc i) xs))"
    using eq by (rule arg_cong)
  then show "length (filter P (take i xs)) < length (filter P xs)"
    by simp
  have "filter P xs ! length (filter P (take i xs))
      = (filter P (take i xs) @ xs ! i # filter P (drop (Suc i) xs)) ! length (filter P (take i xs))"
    using eq by (rule arg_cong)
  then show "filter P xs ! length (filter P (take i xs)) = xs ! i"
    by (simp only: nth_append_length)
qed

lemma loop_body_valid:
  assumes "\<forall>c \<in> set required_fields. row c \<noteq> NaN"
    and "validate_trame (row Trame) valid_trames = Inr ()"
    and "validate_mass_surf (row Mass_surf) = Inr ms"
    and "validate_bool (row Is_compat_interior_wall) = Inr b"
    and "validate_positive_float (row Mesh_height) ''mesh_height'' = Inr h"
    and "validate_positive_float (row Mesh_width) ''mesh_width'' = Inr w"
    and "validate_optional_int (row Roll_pallet) = Inr rp"
    and "convert_and_validate_colors (row Color_names) valid_colors = Inr cs"
  shows "loop_body False i row r =
     Inr (r(Mass_surf := VFloat ms, Is_compat_interior_wall := VBool b, Mesh_height := VFloat h,
            Mesh_width := VFloat w, Roll_pallet := (case rp of None \<Rightarrow> VNull | Some n \<Rightarrow> VInt n),
            Color_names := VList cs), [])"
  using assms
  by (simp add: loop_body_def and_then_def try_trame_def try_mass_surf_def try_bool_def
      try_mesh_def try_roll_pallet_def try_colors_def check_required_def check_duplicate_def
      required_fields_def isnull_def split: option.splits)

text \<open>What holds of a missing required field on a run that returns: the row is not accepted
  and its message, with the field's name and the line, is in the report.\<close>

lemma missing_field_reported:
  assumes "ingest_and_validate_csv rows = Inr (out, errs)"
    and "i < length rows" and "c \<in> set required_fields" and "(rows ! i) c = NaN"
  shows "empty_value_message i c \<in> set errs" and "\<not> accepted rows i"
proof -
  from ingest_InrD [OF assms(1)] obtain ss where len: "length ss = length rows"
    and ss: "\<And>k. k < length rows \<Longrightarrow> row_outcome rows k = Inr (ss ! k)"
    and errs: "errs = concat (map snd ss)"
    by blast
  have m: "empty_value_message i c \<in> set (snd (ss ! i))"
    using missing_field_row_message [OF ss [OF assms(2)] assms(3,4)] .
  then show "empty_value_message i c \<in> set errs"
    using in_report [OF errs] assms(2) len by simp
  show "\<not> accepted rows i"
    using m ss [OF assms(2)] by (auto simp: accepted_def)
qed

text \<open>Once \<^verbatim>\<open>mesh_height\<close> has failed, the block of lines 104 to 108 does not look at
  \<^verbatim>\<open>mesh_width\<close>.\<close>

lemma mesh_width_not_looked_at:
  assumes "validate_positive_float (row Mesh_height) ''mesh_height'' = Inl e"
  shows "try_mesh i (row(Mesh_width := v)) s = try_mesh i row s"
  using assms by (simp add: try_mesh_def)

text \<open>On a run that returns: two rows with the same product code both have their
  duplicate message in the report, and no row of the batch carries that code.\<close>

lemma returned_duplicates_reported:
  assumes "ingest_and_validate_csv rows = Inr (out, errs)"
    and "i < length rows" and "j < length rows" and "i \<noteq> j"
    and "(rows ! i) Codename = (rows ! j) Codename"
  shows "duplicate_message i \<in> set errs \<and> duplicate_message j \<in> set errs
    \<and> (\<forall>r \<in> set out. r Codename \<noteq> Raw ((rows ! i) Codename))"
proof -
  let ?ds = "duplicated (map (\<lambda>row. row Codename) rows)"
  from ingest_InrD [OF assms(1)] obtain ss where len: "length ss = length rows"
    and ss: "\<And>k. k < length rows \<Longrightarrow> row_outcome rows k = Inr (ss ! k)"
    and out: "out = map fst (filter (\<lambda>s. snd s = []) ss)"
    and errs: "errs = concat (map snd ss)"
    by blast
  have di: "?ds ! i" using assms(2-5) by (rule duplicated_codename)
  have dj: "?ds ! j" using assms(2-5) duplicated_codename [of j rows i] by simp
  have "duplicate_message i \<in> set errs"
    using in_report [OF errs] duplicate_row_message [OF ss [OF assms(2)] di] assms(2) len by simp
  moreover have "duplicate_message j \<in> set errs"
    using in_report [OF errs] duplicate_row_message [OF ss [OF assms(3)] dj] assms(3) len by simp
  moreover have "r Codename \<noteq> Raw ((rows ! i) Codename)" if "r \<in> set out" for r
  proof
    assume eq: "r Codename = Raw ((rows ! i) Codename)"
    from out that obtain k where k: "k < length ss" "snd (ss ! k) = []" "r = fst (ss ! k)"
      by (rule in_batch)
    have kr: "k < length rows" using k(1) len by simp
    have "(rows ! k) Codename = (rows ! i) Codename"
      using row_outcome_InrD(1) [OF ss [OF kr]] k(3) eq by simp
    then have "?ds ! k"
      using duplicated_codename [of k rows i] duplicated_codename [of k rows j] kr assms(2-5)
      by (cases "k = i") auto
    then show False
      using duplicate_row_message [OF ss [OF kr]] k(2) by simp
  qed
  ultimately show ?thesis by blast
qed

text \<open>On a run that returns: a row whose required fields are present, whose product code
  occurs once and whose cells pass the validators sits in the batch at the index that
  counts the accepted rows before it, with the validators' values, and has no message.\<close>

lemma returned_valid_row_accepted:
  assumes "ingest_and_validate_csv rows = Inr (out, errs)"
    and "i < length rows"
    and "\<forall>c \<in> set required_fields. (rows ! i) c \<noteq> NaN"
    and "count_list (map (\<lambda>row. row Codename) rows) ((rows ! i) Codename) = 1"
    and "validate_trame ((rows ! i) Trame) valid_trames = Inr ()"
    and "validate_mass_surf ((rows ! i) Mass_surf) = Inr ms"
    and "validate_bool ((rows ! i) Is_compat_interior_wall) = Inr b"
    and "validate_positive_float ((rows ! i) Mesh_height) ''mesh_height'' = Inr h"
    and "validate_positive_float ((rows ! i) Mesh_width) ''mesh_width'' = Inr w"
    and "validate_optional_int ((rows ! i) Roll_pallet) = Inr rp"
    and "convert_and_validate_colors ((rows ! i) Color_names) valid_colors = Inr cs"
  shows "length (filter (accepted rows) [0..<i]) < length out
    \<and> out ! length (filter (accepted rows) [0..<i]) =
        (as_read (rows ! i))
          (Mass_surf := VFloat ms, Is_compat_interior_wall := VBool b, Mesh_height := VFloat h,
           Mesh_width := VFloat w, Roll_pallet := (case rp of None \<Rightarrow> VNull | Some n \<Rightarrow> VInt n),
           Color_names := VList cs)
    \<and> row_messages rows i = []
    \<and> errs = concat (map (row_messages rows) [0..<length rows])"
proof -
  let ?ds = "duplicated (map (\<lambda>row. row Codename) rows)"
  let ?P = "\<lambda>s :: rowstate. snd s = []"
  let ?r = "(as_read (rows ! i))
          (Mass_surf := VFloat ms, Is_compat_interior_wall := VBool b, Mesh_height := VFloat h,
           Mesh_width := VFloat w, Roll_pallet := (case rp of None \<Rightarrow> VNull | Some n \<Rightarrow> VInt n),
           Color_names := VList cs)"
  from ingest_InrD [OF assms(1)] obtain ss where len: "length ss = length rows"
    and ss: "\<And>k. k < length rows \<Longrightarrow> row_outcome rows k = Inr (ss ! k)"
    and out: "out = map fst (filter ?P ss)"
    and errs: "errs = concat (map snd ss)"
    by blast
  have "\<not> ?ds ! i" using assms(2,4) by (simp add: duplicated_nth)
  then have "row_outcome rows i = Inr (?r, [])"
    unfolding row_outcome_def using loop_body_valid [OF assms(3) assms(5-11)] by simp
  then have ssi: "ss ! i = (?r, [])" using ss [OF assms(2)] by simp
  have i: "i < length ss" using assms(2) len by simp
  have acc: "?P (ss ! k) = accepted rows k" if "k < length rows" for k
    using ss [OF that] by (simp add: accepted_def)
  have msgs: "snd (ss ! k) = row_messages rows k" if "k < length rows" for k
    using ss [OF that] by (simp add: row_messages_def)
  have "filter ?P (take i ss) = map ((!) ss) (filter (\<lambda>k. ?P (ss ! k)) [0..<i])"
    using i by (simp add: take_as_indices filter_map comp_def)
  also have "filter (\<lambda>k. ?P (ss ! k)) [0..<i] = filter (accepted rows) [0..<i]"
    using acc assms(2) by (intro filter_cong refl) simp
  finally have pos: "length (filter ?P (take i ss)) = length (filter (accepted rows) [0..<i])"
    by simp
  have Pi: "?P (ss ! i)" using ssi by simp
  have 1: "length (filter (accepted rows) [0..<i]) < length out"
    using filter_nth_position(1) [of i ss ?P, OF i Pi] pos out by simp
  have 2: "out ! length (filter (accepted rows) [0..<i]) = ?r"
    using filter_nth_position [of i ss ?P, OF i Pi] pos out ssi by simp
  have 3: "row_messages rows i = []" using msgs [OF assms(2)] ssi by simp
  have "map snd ss = map (\<lambda>k. snd (ss ! k)) [0..<length ss]"
    by (rule nth_equalityI) simp_all
  also have "\<dots> = map (row_messages rows) [0..<length rows]"
    unfolding len using msgs by (intro map_cong refl) simp
  finally have 4: "errs = concat (map (row_messages rows) [0..<length rows])"
    using errs by simp
  show ?thesis using 1 2 3 4 by blast
qed

text \<open>On a run that returns: two rows without product code are both flagged and have their
  duplicate message and their missing-field message in the report.\<close>

lemma returned_null_codenames_reported:
  assumes "ingest_and_validate_csv rows = Inr (out, errs)"
    and "i < length rows" and "j < length rows" and "i \<noteq> j"
    and "(rows ! i) Codename = NaN" and "(rows ! j) Codename = NaN"
  shows "duplicated (map (\<lambda>row. row Codename) rows) ! i
    \<and> duplicated (map (\<lambda>row. row Codename) rows) ! j
    \<and> duplicate_message i \<in> set errs \<and> duplicate_message j \<in> set errs
    \<and> empty_value_message i Codename \<in> set errs \<and> empty_value_message j Codename \<in> set errs"
proof -
  let ?ds = "duplicated (map (\<lambda>row. row Codename) rows)"
  from ingest_InrD [OF assms(1)] obtain ss where len: "length ss = length rows"
    and ss: "\<And>k. k < length rows \<Longrightarrow> row_outcome rows k = Inr (ss ! k)"
    and errs: "errs = concat (map snd ss)"
    by blast
  have req: "Codename \<in> set required_fields" by (simp add: required_fields_def)
  have di: "?ds ! i" using duplicated_codename [of i rows j] assms(2-6) by simp
  have dj: "?ds ! j" using duplicated_codename [of j rows i] assms(2-6) by simp
  have "duplicate_message i \<in> set errs"
    using in_report [OF errs] duplicate_row_message [OF ss [OF assms(2)] di] assms(2) len by simp
  moreover have "duplicate_message j \<in> set errs"
    using in_report [OF errs] duplicate_row_message [OF ss [OF assms(3)] dj] assms(3) len by simp
  moreover have "empty_value_message i Codename \<in> set errs"
    using in_report [OF errs] missing_field_row_message [OF ss [OF assms(2)] req assms(5)]
      assms(2) len by simp
  moreover have "empty_value_message j Codename \<in> set errs"
    using in_report [OF errs] missing_field_row_message [OF ss [OF assms(3)] req assms(6)]
      assms(3) len by simp
  ultimately show ?thesis using di dj by blast
qed

text \<open>A run with a row that lacks \<^verbatim>\<open>color_names\<close> raises, whatever the other rows hold.\<close>

lemma row_results_Inl: "row_results ds i rows = Inl e \<Longrightarrow> e = no_split"
proof (induction rows arbitrary: i)
  case Nil
  then show ?case by simp
next
  case (Cons row rows)
  show ?case
  proof (cases "row Color_names = NaN")
    case True
    then show ?thesis using Cons.prems by (simp add: loop_body_NaN)
  next
    case False
    then obtain s where "loop_body (ds ! i) i row (as_read row) = Inr s"
      using loop_body_returns by blast
    then show ?thesis using Cons.prems Cons.IH [of "i + 1"]
      by (auto split: sum.splits)
  qed
qed

lemma ingest_raises:
  assumes "\<exists>row \<in> set rows. row Color_names = NaN"
  shows "ingest_and_validate_csv rows = Inl no_split"
proof (cases "ingest_and_validate_csv rows")
  case (Inl e)
  then show ?thesis
    using row_results_Inl by (auto simp: ingest_row_results split: sum.splits)
next
  case (Inr p)
  then show ?thesis using assms ingest_returns_iff [of rows] by (cases p) auto
qed

section \<open>Running the model\<close>

lemmas runtime_defs =
  float_of_string_def sign_prefix_def strip_def is_space_def strip_number_def
  is_number_space_def max_str_digits_def lower_def lower_char_def number_def
  digitpart_def is_digit_def exponent_def scale10_def nat_of_digits_def digit_val_def
  to_double_range_def py_float_def py_int_def int_of_string_def lt_zero_def py_str_def isnull_def

lemmas validator_defs =
  convert_and_validate_colors_def validate_trame_def mass_surf_body_def validate_mass_surf_def
  true_values_def false_values_def validate_bool_def positive_float_body_def
  validate_positive_float_def validate_optional_int_def valid_trames_def valid_colors_def

lemmas loop_defs =
  loop_body_def and_then_def try_trame_def try_mass_surf_def try_bool_def try_mesh_def
  try_roll_pallet_def try_colors_def check_required_def check_duplicate_def required_fields_def
  empty_value_message_def duplicate_message_def error_message_def

lemma str_nat_1: "str_nat (Suc 0) = ''1''"
  by (simp add: str_nat.simps digit_char_def)


lemma example_row_simps:
  "example_row Codename = Str ''A1''"
  "example_row Trame = Str ''T2 Ra1 M2 E2''"
  "example_row Mass_surf = Str ''12.5''"
  "example_row Is_compat_interior_wall = Str ''vrai''"
  "example_row Mesh_height = Str ''2.0''"
  "example_row Mesh_width = Str ''1.0''"
  "example_row Roll_pallet = NaN"
  "example_row Color_names = Str ''white,blue''"
  by (simp_all add: example_row_def mk_row_def)

lemma example_accepted:
  "ingest_and_validate_csv [example_row] =
     Inr ([(as_read example_row)
            (Mass_surf := VFloat (Finite (25 / 2)), Is_compat_interior_wall := VBool True,
             Mesh_height := VFloat (Finite 2), Mesh_width := VFloat (Finite 1),
             Roll_pallet := VNull, Color_names := VList [''white'', ''blue''])], [])"
  by (simp add: ingest_and_validate_csv_def duplicated_def loop_defs validator_defs runtime_defs
      example_row_simps str_nat_1)



section \<open>The claims\<close>

text \<open>
  C1. Claim: row validation runs every check and collects every failure; a row whose
  \<^verbatim>\<open>mesh_height\<close> and \<^verbatim>\<open>mesh_width\<close> are both invalid gets one error for each of the two
  fields. The code puts both assignments in one \<^verbatim>\<open>try\<close> (lines 104 to 108), so the
  failure of \<^verbatim>\<open>mesh_height\<close> skips the validation of \<^verbatim>\<open>mesh_width\<close>: on the example row with
  \<^verbatim>\<open>mesh_height = "abc"\<close> and \<^verbatim>\<open>mesh_width = "xyz"\<close> the report holds the message of
  \<^verbatim>\<open>mesh_height\<close> and nothing about \<^verbatim>\<open>mesh_width\<close>.
\<close>

theorem mesh_width_error_suppressed:
  "ingest_and_validate_csv [example_row(Mesh_height := Str ''abc'', Mesh_width := Str ''xyz'')]
     = Inr ([], [''Error at line 1: mesh_height must be a float. Got abc''])"
  by (simp add: ingest_and_validate_csv_def duplicated_def loop_defs validator_defs runtime_defs
      example_row_simps str_nat_1)

text \<open>
  C2. Claim: a value that parses as a float but is negative fails with the out-of-range
  message, \<^verbatim>\<open>mass_surf must be non-negative. Got -3.0\<close>. The code raises that
  \<^verbatim>\<open>ValueError\<close> inside the \<^verbatim>\<open>try\<close> whose \<^verbatim>\<open>except ValueError\<close> clause replaces it (lines 33 to
  39, and 52 to 58): for \<^verbatim>\<open>"-3"\<close> the body raises the out-of-range message and both
  validators return the not-a-float one.
\<close>

theorem negative_value_reported_as_not_a_float:
  "mass_surf_body (Str ''-3'') = Inl (ValueError ''mass_surf must be non-negative. Got -3.0'')
   \<and> validate_mass_surf (Str ''-3'') = Inl (ValueError ''mass_surf must be a float. Got -3'')
   \<and> validate_positive_float (Str ''-3'') ''mesh_height''
        = Inl (ValueError ''mesh_height must be a float. Got -3'')"
  by (simp add: runtime_defs validator_defs str_float_def str_nat.simps frac_digits.simps
      digit_char_def)

text \<open>
  C3. Claim: no failure of a field validator leaves the batch pipeline as an uncaught
  exception, also for a row whose \<^verbatim>\<open>color_names\<close> is null. The code calls \<^verbatim>\<open>.split\<close> on the
  null, a float: the \<^verbatim>\<open>AttributeError\<close> is not a \<^verbatim>\<open>ValueError\<close>, passes the handler of
  line 117 and leaves \<^verbatim>\<open>ingest_and_validate_csv\<close> and \<^verbatim>\<open>main\<close>, whatever the engine.
\<close>

theorem null_colors_escape_the_loop:
  "ingest_and_validate_csv [example_row(Color_names := NaN)]
     = Inl no_split
   \<and> main commit [example_row(Color_names := NaN)] world0
     = Inl no_split"
  by (simp add: main_def ingest_row_results loop_body_NaN)

text \<open>
  C4. Claim: of two rows of the original batch that share a product code, both are
  excluded from the validated batch and each produces a duplicate message, whatever their
  other fields hold. Here two valid rows share \<^verbatim>\<open>A1\<close> and a third row lacks
  \<^verbatim>\<open>color_names\<close>: both rows are flagged, their messages are appended to
  \<^verbatim>\<open>error_messages\<close>, and the third row makes line 116 raise, so that neither a batch nor
  a message is returned. On the runs that return, the claim holds
  (\<open>returned_duplicates_reported\<close>).
\<close>

theorem duplicate_messages_lost_with_crash:
  "duplicated (map (\<lambda>row. row Codename)
       [example_row, example_row, example_row(Codename := Str ''A2'', Color_names := NaN)])
     = [True, True, False]
   \<and> ingest_and_validate_csv
       [example_row, example_row, example_row(Codename := Str ''A2'', Color_names := NaN)]
     = Inl no_split"
proof -
  have "duplicated (map (\<lambda>row. row Codename)
       [example_row, example_row, example_row(Codename := Str ''A2'', Color_names := NaN)])
     = [True, True, False]"
    by (simp add: duplicated_def example_row_simps)
  moreover have "ingest_and_validate_csv
       [example_row, example_row, example_row(Codename := Str ''A2'', Color_names := NaN)]
     = Inl no_split"
    by (rule ingest_raises) simp
  ultimately show ?thesis by blast
qed




text \<open>
  C6. Claim: a row whose required fields are all present, whose product code occurs once
  in the batch and whose values all pass their validators appears in the validated batch,
  in its original position, with coerced values, and contributes no message. The
  specification's example row is such a row, and alone in its batch it is accepted; put
  after a row that lacks \<^verbatim>\<open>color_names\<close> it appears nowhere, because line 116 raises before
  the loop reaches it. On the runs that return, the claim holds
  (\<open>returned_valid_row_accepted\<close>).
\<close>

theorem valid_row_lost_with_crash:
  "ingest_and_validate_csv [example_row] =
     Inr ([(as_read example_row)
            (Mass_surf := VFloat (Finite (25 / 2)), Is_compat_interior_wall := VBool True,
             Mesh_height := VFloat (Finite 2), Mesh_width := VFloat (Finite 1),
             Roll_pallet := VNull, Color_names := VList [''white'', ''blue''])], [])
   \<and> ingest_and_validate_csv
       [example_row(Codename := Str ''A0'', Color_names := NaN), example_row]
     = Inl no_split"
proof -
  have "ingest_and_validate_csv
       [example_row(Codename := Str ''A0'', Color_names := NaN), example_row]
     = Inl no_split"
    by (rule ingest_raises) simp
  then show ?thesis using example_accepted by blast
qed

text \<open>
  C7. Claim: when every comma-split element, trimmed, is in the vocabulary, the list
  validator returns the ordered list of the trimmed elements. The code tests the trimmed
  elements and returns \<^verbatim>\<open>colors_list\<close>, the elements as split: for \<^verbatim>\<open>"white, blue"\<close> both
  trimmed elements are colours and the second element returned keeps its blank.
\<close>

theorem colors_not_trimmed_counterexample:
  "set (map strip (split_comma ''white, blue'')) \<subseteq> set valid_colors
   \<and> convert_and_validate_colors (Str ''white, blue'') valid_colors = Inr [''white'', '' blue'']
   \<and> convert_and_validate_colors (Str ''white, blue'') valid_colors
       \<noteq> Inr (map strip (split_comma ''white, blue''))"
  by (simp add: validator_defs runtime_defs)

text \<open>
  C7 as amended: for every string, if every comma-split element, trimmed of surrounding
  white space, belongs to the vocabulary, the validator returns the elements as split,
  untrimmed, in their order and with their repetitions; otherwise it raises the
  \<^verbatim>\<open>ValueError\<close> that quotes the string.
\<close>

theorem colors_returned_as_split:
  "convert_and_validate_colors (Str s) vocabulary =
     (if \<forall>e \<in> set (split_comma s). strip e \<in> set vocabulary then Inr (split_comma s)
      else Inl (ValueError (''Invalid color names in the list. Got '' @ s)))"
  by (simp add: convert_and_validate_colors_def Let_def list_all_iff)
theorem colors_returned_as_split_witness:
  "convert_and_validate_colors (Str ''blue , red,blue'') valid_colors
     = Inr [''blue '', '' red'', ''blue'']
   \<and> convert_and_validate_colors (Str ''blue,pink'') valid_colors
     = Inl (ValueError ''Invalid color names in the list. Got blue,pink'')"
  using colors_returned_as_split [of "''blue , red,blue''" valid_colors]
    colors_returned_as_split [of "''blue,pink''" valid_colors]
  by (simp add: valid_colors_def runtime_defs)

text \<open>
  C8. Claim: no two rows of the returned batch share a product code; every row whose
  product code occurs more than once in the original batch is filtered out. Whenever the
  pipeline returns, the product codes of the returned batch are pairwise distinct, and
  each of them occurs exactly once in the original batch.
\<close>

theorem batch_codenames_distinct:
  assumes "ingest_and_validate_csv rows = Inr (out, errs)"
  shows "distinct (map (\<lambda>r. r Codename) out)
    \<and> (\<forall>r \<in> set out. \<exists>c. r Codename = Raw c
          \<and> count_list (map (\<lambda>row. row Codename) rows) c = 1)"
proof -
  let ?codes = "map (\<lambda>row. row Codename) rows"
  let ?ds = "duplicated ?codes"
  from ingest_InrD [OF assms] obtain ss where len: "length ss = length rows"
    and ss: "\<And>k. k < length rows \<Longrightarrow> row_outcome rows k = Inr (ss ! k)"
    and out: "out = map fst (filter (\<lambda>s. snd s = []) ss)"
    by blast
  let ?idx = "filter (\<lambda>k. snd (ss ! k) = []) [0..<length ss]"
  have not_dup: "\<not> ?ds ! k" if "k \<in> set ?idx" for k
    using that duplicate_row_message [OF ss [of k]] len by auto
  have code: "fst (ss ! k) Codename = Raw ((rows ! k) Codename)" if "k \<in> set ?idx" for k
    using that row_outcome_InrD(1) [OF ss [of k]] len by simp
  have "map (\<lambda>r. r Codename) out = map (\<lambda>k. fst (ss ! k) Codename) ?idx"
    unfolding out by (subst filter_as_indices) (simp add: comp_def)
  also have "\<dots> = map (\<lambda>k. Raw ((rows ! k) Codename)) ?idx"
    using code by (intro map_cong refl) blast
  finally have codes: "map (\<lambda>r. r Codename) out = map (\<lambda>k. Raw ((rows ! k) Codename)) ?idx" .
  have "inj_on (\<lambda>k. Raw ((rows ! k) Codename)) (set ?idx)"
  proof (rule inj_onI)
    fix k k' assume k: "k \<in> set ?idx" and k': "k' \<in> set ?idx"
      and eq: "Raw ((rows ! k) Codename) = Raw ((rows ! k') Codename)"
    show "k = k'"
    proof (rule ccontr)
      assume "k \<noteq> k'"
      then have "?ds ! k"
        using duplicated_codename [of k rows k'] k k' eq len by simp
      then show False using not_dup [OF k] by simp
    qed
  qed
  then have 1: "distinct (map (\<lambda>r. r Codename) out)"
    unfolding codes by (simp add: distinct_map)
  have 2: "\<exists>c. r Codename = Raw c \<and> count_list ?codes c = 1" if "r \<in> set out" for r
  proof -
    from that obtain k where k: "k \<in> set ?idx" and r: "r Codename = Raw ((rows ! k) Codename)"
      using codes by (metis (no_types, lifting) image_iff list.set_map)
    have kr: "k < length rows" using k len by simp
    have "\<not> 2 \<le> count_list ?codes (?codes ! k)"
      using not_dup [OF k] kr by (simp add: duplicated_nth)
    moreover have "1 \<le> count_list ?codes (?codes ! k)"
      using kr by (intro count_list_ge1) simp
    ultimately have "count_list ?codes ((rows ! k) Codename) = 1" using kr by simp
    then show ?thesis using r by blast
  qed
  show ?thesis using 1 2 by blast
qed

text \<open>Four rows, the second and the fourth with the same product code: the first and the
  third are returned.\<close>

theorem batch_codenames_distinct_witness:
  "map (\<lambda>r. r Codename) (batch_of (ingest_and_validate_csv
       [example_row, example_row(Codename := Str ''A2''),
        example_row(Codename := Str ''A3''), example_row(Codename := Str ''A2'')]))
     = [Raw (Str ''A1''), Raw (Str ''A3'')]
   \<and> distinct (map (\<lambda>r. r Codename) (batch_of (ingest_and_validate_csv
       [example_row, example_row(Codename := Str ''A2''),
        example_row(Codename := Str ''A3''), example_row(Codename := Str ''A2'')])))"
proof -
  let ?rows = "[example_row, example_row(Codename := Str ''A2''),
        example_row(Codename := Str ''A3''), example_row(Codename := Str ''A2'')]"
  have "\<forall>row \<in> set ?rows. row Color_names \<noteq> NaN"
    by (simp add: example_row_simps)
  then obtain out errs where run: "ingest_and_validate_csv ?rows = Inr (out, errs)"
    using ingest_returns_iff [of ?rows] by blast
  have "map (\<lambda>r. r Codename) (batch_of (ingest_and_validate_csv ?rows))
     = [Raw (Str ''A1''), Raw (Str ''A3'')]"
    by (simp add: batch_of_def ingest_and_validate_csv_def duplicated_def loop_defs validator_defs
        runtime_defs example_row_simps as_read_def)
  moreover from batch_codenames_distinct [OF run]
  have "distinct (map (\<lambda>r. r Codename) (batch_of (ingest_and_validate_csv ?rows)))"
    using run by (simp add: batch_of_def)
  ultimately show ?thesis by blast
qed

text \<open>
  C9. Claim: a row in which a required field is null is excluded and yields a message that
  names the field and the line. For \<^verbatim>\<open>color_names\<close> the message is appended (line 84) and
  then lost: the same row makes line 116 raise, and the run ends with no report at all.
  Here the second row of two lacks \<^verbatim>\<open>color_names\<close>.
\<close>

theorem missing_color_names_never_reported:
  "ingest_and_validate_csv
     [example_row, example_row(Codename := Str ''A2'', Color_names := NaN)]
     = Inl no_split"
proof -
  let ?ds = "duplicated [example_row Codename, Str ''A2'']"
  have "example_row Color_names \<noteq> NaN" by (simp add: example_row_simps)
  then obtain s where "loop_body (?ds ! 0) 0 example_row (as_read example_row) = Inr s"
    using loop_body_returns [of example_row "?ds ! 0" 0 "as_read example_row"] by blast
  then show ?thesis
    by (simp add: ingest_row_results loop_body_NaN)
qed

text \<open>
  C10. Claim (implicit): null product codes count as equal for the duplicate detector; of
  two rows whose product code is null, each is flagged and gets the duplicate message
  besides its missing-field message. Both rows are flagged; here the second of them also
  lacks \<^verbatim>\<open>color_names\<close>, line 116 raises, and no row receives any message in any report.
  On the runs that return, the claim holds (\<open>returned_null_codenames_reported\<close>).
\<close>

theorem null_codename_messages_lost_with_crash:
  "duplicated (map (\<lambda>row. row Codename)
       [example_row(Codename := NaN), example_row(Codename := NaN, Color_names := NaN)])
     = [True, True]
   \<and> ingest_and_validate_csv
       [example_row(Codename := NaN), example_row(Codename := NaN, Color_names := NaN)]
     = Inl no_split"
proof -
  have "duplicated (map (\<lambda>row. row Codename)
       [example_row(Codename := NaN), example_row(Codename := NaN, Color_names := NaN)])
     = [True, True]"
    by (simp add: duplicated_def)
  moreover have "ingest_and_validate_csv
       [example_row(Codename := NaN), example_row(Codename := NaN, Color_names := NaN)]
     = Inl no_split"
    by (rule ingest_raises) simp
  ultimately show ?thesis by blast
qed

end
